theory Spec2Isabelle
  imports Complex_Main
begin

section \<open>The questionnaire processor of app.py\<close>

text \<open>
  The scoring core of the application is the class \<open>QuestionnaireProcessor\<close>: a grade codec
  (\<open>option_id_to_grade\<close>, \<open>grade_to_letter\<close>), three averaging passes
  (\<open>_calculate_indicator_scores\<close>, \<open>_calculate_criterion_scores\<close>,
  \<open>_calculate_value_scores\<close>) run by \<open>calculate_all_scores\<close>, and
  \<open>get_progress_data\<close>.

  Conventions of the embedding:
  \<^item> Python strings are \<open>string\<close>; the text is read as ASCII, and a character above 127 is
    an opaque symbol that is no letter, digit or white space.
  \<^item> Python integers are \<open>int\<close>. Python floats are exact rationals (\<open>rat\<close>): the means
    are the exact quotients, without the rounding of binary floating point.
  \<^item> The catalog (\<open>question_files\<close>) and the answers are dictionaries that the code iterates
    in insertion order, so they are association lists; a dictionary has no key twice, which
    theorems assume as \<open>distinct (map fst d)\<close> where it matters. The dictionaries the passes
    build are only looked up by key afterwards, so they are maps.
  \<^item> An exception is a value \<open>Inl e\<close> of a sum type.
\<close>

subsection \<open>Python built-ins the code calls\<close>

datatype py_error = ValueError | IndexError

text \<open>\<open>str.split(sep)\<close> with a one-character separator: always at least one segment.\<close>

fun py_split :: "char \<Rightarrow> string \<Rightarrow> string list" where
  "py_split sep [] = [[]]"
| "py_split sep (c # cs) =
     (if c = sep then [] # py_split sep cs
      else (case py_split sep cs of
              [] \<Rightarrow> [[c]]
            | p # ps \<Rightarrow> (c # p) # ps))"

text \<open>The white space that \<open>int()\<close> strips from an ASCII string: tab, line feed, vertical
  tab, form feed, carriage return and the blank. The separators 28 to 31 are not stripped.\<close>

definition is_space :: "char \<Rightarrow> bool" where
  "is_space c = (let n = (of_char c :: nat) in (9 \<le> n \<and> n \<le> 13) \<or> n = 32)"

definition is_digit :: "char \<Rightarrow> bool" where
  "is_digit c = (let n = (of_char c :: nat) in 48 \<le> n \<and> n \<le> 57)"

definition py_strip :: "string \<Rightarrow> string" where
  "py_strip s = rev (dropWhile is_space (rev (dropWhile is_space s)))"

fun digits_value :: "nat \<Rightarrow> string \<Rightarrow> nat" where
  "digits_value acc [] = acc"
| "digits_value acc (c # cs) = digits_value (10 * acc + (of_char c - 48)) cs"

text \<open>\<open>int(s)\<close> on a string: optional white space around an optional sign and a non-empty
  run of decimal digits; anything else raises \<open>ValueError\<close>, and so does a run of more than
  4300 digits (the default of \<open>sys.int_max_str_digits\<close>). Python also allows single
  underscores between digits, but the only caller passes a segment of a split at underscores.
  Outside ASCII Python accepts further white space and decimal digits; the text is read as
  ASCII here.\<close>

definition py_int :: "string \<Rightarrow> py_error + int" where
  "py_int s =
     (let t = py_strip s;
          neg = (t \<noteq> [] \<and> hd t = CHR ''-'');
          ds = (if t \<noteq> [] \<and> (hd t = CHR ''-'' \<or> hd t = CHR ''+'') then tl t else t)
      in if ds \<noteq> [] \<and> list_all is_digit ds \<and> length ds \<le> 4300
         then Inr (if neg then - int (digits_value 0 ds) else int (digits_value 0 ds))
         else Inl ValueError)"

text \<open>\<open>str(i)\<close> of an integer, as the f-string of the fallback id formats it.\<close>

fun digits_of :: "nat \<Rightarrow> string" where
  "digits_of n =
     (if n < 10 then [''0123456789'' ! n]
      else digits_of (n div 10) @ [''0123456789'' ! (n mod 10)])"

declare digits_of.simps [simp del]

definition py_str :: "int \<Rightarrow> string" where
  "py_str i = (if i < 0 then CHR ''-'' # digits_of (nat (- i)) else digits_of (nat i))"

text \<open>\<open>xs[i]\<close>: a negative index counts from the end, an index out of range raises.\<close>

definition py_index :: "'a list \<Rightarrow> int \<Rightarrow> py_error + 'a" where
  "py_index xs i =
     (if 0 \<le> i \<and> i < int (length xs) then Inr (xs ! nat i)
      else if i < 0 \<and> - int (length xs) \<le> i then Inr (xs ! nat (int (length xs) + i))
      else Inl IndexError)"

text \<open>\<open>str.upper()\<close>: the letters a to z go to A to Z. No character outside a to g has one
  of the letters A to G as its upper case, so the lookup below sees the same keys.\<close>

definition upper_char :: "char \<Rightarrow> char" where
  "upper_char c =
     (case map_of (zip ''abcdefghijklmnopqrstuvwxyz'' ''ABCDEFGHIJKLMNOPQRSTUVWXYZ'') c of
        Some u \<Rightarrow> u
      | None \<Rightarrow> c)"

definition py_upper :: "string \<Rightarrow> string" where
  "py_upper s = map upper_char s"

definition py_startswith :: "string \<Rightarrow> string \<Rightarrow> bool" where
  "py_startswith s p = (take (length p) s = p)"

text \<open>\<open>round(x)\<close> of Python 3 with one argument: the nearest integer, a tie going to the even
  neighbour.\<close>

definition py_round :: "rat \<Rightarrow> int" where
  "py_round x =
     (let f = \<lfloor>x\<rfloor>; d = x - of_int f
      in if d < 1 / 2 then f
         else if 1 / 2 < d then f + 1
         else if even f then f else f + 1)"

subsection \<open>The grade codec\<close>

definition GRADE_MAPPING :: "(string \<times> int) list" where
  "GRADE_MAPPING =
     [(''A'', 0), (''B'', 1), (''C'', 2), (''D'', 3), (''E'', 4), (''F'', 5), (''G'', 6)]"

definition LETTER_MAPPING :: "string list" where
  "LETTER_MAPPING = [''A'', ''B'', ''C'', ''D'', ''E'', ''F'', ''G'']"

text \<open>\<open>GRADE_MAPPING.get(option_id.upper(), 0)\<close>\<close>

definition option_id_to_grade :: "string \<Rightarrow> int" where
  "option_id_to_grade option_id =
     (case map_of GRADE_MAPPING (py_upper option_id) of
        Some g \<Rightarrow> g
      | None \<Rightarrow> 0)"

text \<open>\<open>LETTER_MAPPING[int(round(grade))]\<close> inside the range check, \<open>'A'\<close> outside.\<close>

definition grade_to_letter :: "rat \<Rightarrow> py_error + string" where
  "grade_to_letter grade =
     (if 0 \<le> grade \<and> grade \<le> 6 then py_index LETTER_MAPPING (py_round grade)
      else Inr ''A'')"

subsection \<open>The data model\<close>

text \<open>The catalog as the loader gives it: a dictionary from page key to questionnaire. The
  indicator pass and \<open>get_progress_data\<close> read \<open>collection_id\<close>, \<open>questions\<close> and
  \<open>question_collections\<close> by subscript, so they are fields that are always there;
  \<open>question_id\<close> and the title under \<open>questionnaire_info\<close> are read with \<open>.get\<close>, so they
  are optional. The fields the core never reads (texts, guidance, answer options) are left
  out.\<close>

record question =
  question_id :: "string option"

record collection =
  collection_id :: string
  questions :: "question list"

record questionnaire =
  title :: "string option"
  question_collections :: "collection list"

type_synonym catalog = "(string \<times> questionnaire) list"

text \<open>An answer record is the selected option.\<close>

record answer =
  option_id :: string
  option_text :: string

type_synonym answers = "(string \<times> answer) list"

record ScoreData =
  indicator_scores :: "string \<rightharpoonup> int"
  criterion_scores :: "string \<rightharpoonup> rat"
  value_scores :: "string \<rightharpoonup> rat"

record QuestionnaireProcessor =
  question_files :: catalog
  score_cache :: "((string \<rightharpoonup> int) \<times> (string \<rightharpoonup> rat) \<times> (string \<rightharpoonup> rat)) option"

subsection \<open>The indicator pass\<close>

text \<open>The inner loop of \<open>_calculate_indicator_scores\<close> over the collections of the page: the
  first collection with the wanted id whose question list is longer than the index receives
  the grade and ends the loop. A collection with the id and too few questions does not end
  it.\<close>

fun scan_collections ::
  "collection list \<Rightarrow> string \<Rightarrow> int \<Rightarrow> answer \<Rightarrow> (string \<rightharpoonup> int) \<Rightarrow> py_error + (string \<rightharpoonup> int)"
where
  "scan_collections [] cid qi ad m = Inr m"
| "scan_collections (c # cs) cid qi ad m =
     (if collection_id c = cid \<and> qi < int (length (questions c)) then
        (case py_index (questions c) qi of
           Inl e \<Rightarrow> Inl e
         | Inr q \<Rightarrow>
             Inr (m((case question_id q of
                       Some i \<Rightarrow> i
                     | None \<Rightarrow> cid @ ''_'' @ py_str qi) \<mapsto> option_id_to_grade (option_id ad))))
      else scan_collections cs cid qi ad m)"

text \<open>The outer loop over \<open>answers.items()\<close>.\<close>

fun indicator_loop ::
  "catalog \<Rightarrow> answers \<Rightarrow> (string \<rightharpoonup> int) \<Rightarrow> py_error + (string \<rightharpoonup> int)"
where
  "indicator_loop qf [] m = Inr m"
| "indicator_loop qf ((answer_key, answer_data) # rest) m =
     (let parts = py_split CHR ''_'' answer_key in
      if length parts < 3 then indicator_loop qf rest m
      else
        (case py_int (parts ! 2) of
           Inl e \<Rightarrow> Inl e
         | Inr question_index \<Rightarrow>
             (case map_of qf (parts ! 0) of
                None \<Rightarrow> indicator_loop qf rest m
              | Some page \<Rightarrow>
                  (case scan_collections (question_collections page) (parts ! 1)
                          question_index answer_data m of
                     Inl e \<Rightarrow> Inl e
                   | Inr m' \<Rightarrow> indicator_loop qf rest m'))))"

definition calculate_indicator_scores ::
  "catalog \<Rightarrow> answers \<Rightarrow> py_error + (string \<rightharpoonup> int)"
where
  "calculate_indicator_scores qf ans = indicator_loop qf ans Map.empty"

subsection \<open>The criterion pass\<close>

text \<open>\<open>sum(scores) / len(scores)\<close>; both callers guard it with \<open>if scores\<close>.\<close>

definition mean_int :: "int list \<Rightarrow> rat" where
  "mean_int scores = of_int (sum_list scores) / of_nat (length scores)"

definition mean_rat :: "rat list \<Rightarrow> rat" where
  "mean_rat scores = sum_list scores / of_nat (length scores)"

text \<open>The loop that collects the scores of one collection: a question counts when
  \<open>question.get('question_id')\<close> is a non-empty string that is a key of the indicator map.\<close>

fun question_scores :: "(string \<rightharpoonup> int) \<Rightarrow> question list \<Rightarrow> int list" where
  "question_scores ind [] = []"
| "question_scores ind (q # qs) =
     (case question_id q of
        None \<Rightarrow> question_scores ind qs
      | Some qid \<Rightarrow>
          (if qid \<noteq> [] then
             (case ind qid of
                Some s \<Rightarrow> s # question_scores ind qs
              | None \<Rightarrow> question_scores ind qs)
           else question_scores ind qs))"

fun criterion_collections ::
  "(string \<rightharpoonup> int) \<Rightarrow> collection list \<Rightarrow> (string \<rightharpoonup> rat) \<Rightarrow> (string \<rightharpoonup> rat)"
where
  "criterion_collections ind [] crit = crit"
| "criterion_collections ind (c # cs) crit =
     (let scores = question_scores ind (questions c) in
      criterion_collections ind cs
        (if scores \<noteq> [] then crit(collection_id c \<mapsto> mean_int scores) else crit))"

fun criterion_pages ::
  "(string \<rightharpoonup> int) \<Rightarrow> catalog \<Rightarrow> (string \<rightharpoonup> rat) \<Rightarrow> (string \<rightharpoonup> rat)"
where
  "criterion_pages ind [] crit = crit"
| "criterion_pages ind ((page_key, page_data) # rest) crit =
     criterion_pages ind rest (criterion_collections ind (question_collections page_data) crit)"

definition calculate_criterion_scores :: "catalog \<Rightarrow> (string \<rightharpoonup> int) \<Rightarrow> (string \<rightharpoonup> rat)" where
  "calculate_criterion_scores qf ind = criterion_pages ind qf Map.empty"

subsection \<open>The value pass\<close>

text \<open>The display title: \<open>page_data.get('questionnaire_info', {}).get('title', page_key)\<close>.\<close>

definition value_name :: "string \<Rightarrow> questionnaire \<Rightarrow> string" where
  "value_name page_key page_data = (case title page_data of Some t \<Rightarrow> t | None \<Rightarrow> page_key)"

fun collection_values :: "(string \<rightharpoonup> rat) \<Rightarrow> collection list \<Rightarrow> rat list" where
  "collection_values crit [] = []"
| "collection_values crit (c # cs) =
     (case crit (collection_id c) of
        Some s \<Rightarrow> s # collection_values crit cs
      | None \<Rightarrow> collection_values crit cs)"

fun value_pages ::
  "(string \<rightharpoonup> rat) \<Rightarrow> catalog \<Rightarrow> (string \<rightharpoonup> rat) \<Rightarrow> (string \<rightharpoonup> rat)"
where
  "value_pages crit [] vals = vals"
| "value_pages crit ((page_key, page_data) # rest) vals =
     (let scores = collection_values crit (question_collections page_data) in
      value_pages crit rest
        (if scores \<noteq> [] then vals(value_name page_key page_data \<mapsto> mean_rat scores) else vals))"

definition calculate_value_scores :: "catalog \<Rightarrow> (string \<rightharpoonup> rat) \<Rightarrow> (string \<rightharpoonup> rat)" where
  "calculate_value_scores qf crit = value_pages crit qf Map.empty"

subsection \<open>calculate_all_scores\<close>

text \<open>The method reads the answers and writes the field \<open>_score_cache\<close> of the processor. Both
  objects are passed by reference, so the model returns, with the outcome, what each of them
  holds after the call. An exception of the indicator pass leaves before the cache is
  written.\<close>

definition calculate_all_scores ::
  "QuestionnaireProcessor \<Rightarrow> answers \<Rightarrow> (py_error + ScoreData) \<times> QuestionnaireProcessor \<times> answers"
where
  "calculate_all_scores self ans =
     (if ans = [] then
        (Inr \<lparr>indicator_scores = Map.empty, criterion_scores = Map.empty,
              value_scores = Map.empty\<rparr>, self, ans)
      else
        (case calculate_indicator_scores (question_files self) ans of
           Inl e \<Rightarrow> (Inl e, self, ans)
         | Inr ind \<Rightarrow>
             (let crit = calculate_criterion_scores (question_files self) ind;
                  vals = calculate_value_scores (question_files self) crit
              in (Inr \<lparr>indicator_scores = ind, criterion_scores = crit, value_scores = vals\<rparr>,
                  self\<lparr>score_cache := Some (ind, crit, vals)\<rparr>, ans))))"

subsection \<open>get_progress_data\<close>

record progress_entry =
  total :: int
  answered :: int
  progress :: rat

text \<open>The inner loop over the collections of a page, on the two counters.\<close>

fun progress_collections ::
  "string \<Rightarrow> answers \<Rightarrow> collection list \<Rightarrow> int \<times> int \<Rightarrow> int \<times> int"
where
  "progress_collections page_name ans [] acc = acc"
| "progress_collections page_name ans (c # cs) (total_questions, answered_questions) =
     (let collection_total = int (length (questions c));
          collection_answered =
            int (length (filter (\<lambda>k. py_startswith k (page_name @ ''_'' @ collection_id c))
                           (map fst ans)))
      in progress_collections page_name ans cs
           (total_questions + collection_total, answered_questions + collection_answered))"

definition make_entry :: "int \<Rightarrow> int \<Rightarrow> progress_entry" where
  "make_entry t a =
     \<lparr>total = t, answered = a, progress = (if t > 0 then of_int a / of_int t else 0)\<rparr>"

fun progress_pages ::
  "answers \<Rightarrow> catalog \<Rightarrow> (string \<rightharpoonup> progress_entry) \<times> int \<times> int
     \<Rightarrow> (string \<rightharpoonup> progress_entry) \<times> int \<times> int"
where
  "progress_pages ans [] acc = acc"
| "progress_pages ans ((page_name, page_data) # rest) (progress_data, total_all, answered_all) =
     (case progress_collections page_name ans (question_collections page_data) (0, 0) of
        (total_questions, answered_questions) \<Rightarrow>
          progress_pages ans rest
            (progress_data(page_name \<mapsto> make_entry total_questions answered_questions),
             total_all + total_questions, answered_all + answered_questions))"

definition get_progress_data ::
  "QuestionnaireProcessor \<Rightarrow> answers
     \<Rightarrow> (string \<rightharpoonup> progress_entry) \<times> QuestionnaireProcessor \<times> answers"
where
  "get_progress_data self ans =
     (case progress_pages ans (question_files self) (Map.empty, 0, 0) of
        (progress_data, total_all, answered_all) \<Rightarrow>
          (progress_data(''overall'' \<mapsto> make_entry total_all answered_all), self, ans))"

subsection \<open>The quantities the progress report is stated with\<close>

text \<open>The number of questions of a page, and the number of answer keys that start with
  \<open>"<page>_<collection_id>"\<close>, added up over the collections of the page.\<close>

definition page_total :: "questionnaire \<Rightarrow> int" where
  "page_total q = sum_list (map (\<lambda>c. int (length (questions c))) (question_collections q))"

definition page_answered :: "string \<Rightarrow> questionnaire \<Rightarrow> answers \<Rightarrow> int" where
  "page_answered page q ans =
     sum_list (map (\<lambda>c. int (length (filter (\<lambda>k. py_startswith k (page @ ''_'' @ collection_id c))
                                        (map fst ans))))
                 (question_collections q))"

subsection \<open>Concrete catalogs and answers\<close>

text \<open>The end-to-end example of the specification.\<close>

definition demo_catalog :: catalog where
  "demo_catalog =
     [(''Q1'', \<lparr>title = Some ''Quality'', question_collections =
         [\<lparr>collection_id = ''C1'',
           questions = [\<lparr>question_id = Some ''I1''\<rparr>, \<lparr>question_id = Some ''I2''\<rparr>]\<rparr>]\<rparr>)]"

definition demo_answers :: answers where
  "demo_answers =
     [(''Q1_C1_0'', \<lparr>option_id = ''B'', option_text = ''yes''\<rparr>),
      (''Q1_C1_1'', \<lparr>option_id = ''D'', option_text = ''no''\<rparr>)]"

text \<open>A page key with an underscore, and the key that \<open>display_question\<close> stores for its
  first question.\<close>

definition underscore_catalog :: catalog where
  "underscore_catalog =
     [(''data_protection'', \<lparr>title = Some ''Data protection'', question_collections =
         [\<lparr>collection_id = ''C1'', questions = [\<lparr>question_id = Some ''I1''\<rparr>]\<rparr>]\<rparr>)]"

definition underscore_answers :: answers where
  "underscore_answers =
     [(''data_protection_C1_0'', \<lparr>option_id = ''B'', option_text = ''yes''\<rparr>)]"

text \<open>A question without \<open>question_id\<close>.\<close>

definition unnamed_catalog :: catalog where
  "unnamed_catalog =
     [(''Q1'', \<lparr>title = Some ''Quality'', question_collections =
         [\<lparr>collection_id = ''C1'', questions = [\<lparr>question_id = None\<rparr>]\<rparr>]\<rparr>)]"

definition unnamed_answers :: answers where
  "unnamed_answers = [(''Q1_C1_0'', \<lparr>option_id = ''B'', option_text = ''yes''\<rparr>)]"

text \<open>Two questionnaires with the same title.\<close>

definition same_title_catalog :: catalog where
  "same_title_catalog =
     [(''P1'', \<lparr>title = Some ''T'', question_collections =
         [\<lparr>collection_id = ''C1'', questions = [\<lparr>question_id = Some ''I1''\<rparr>]\<rparr>]\<rparr>),
      (''P2'', \<lparr>title = Some ''T'', question_collections =
         [\<lparr>collection_id = ''C2'', questions = [\<lparr>question_id = Some ''I2''\<rparr>]\<rparr>]\<rparr>)]"

definition same_title_answers :: answers where
  "same_title_answers =
     [(''P1_C1_0'', \<lparr>option_id = ''A'', option_text = ''low''\<rparr>),
      (''P2_C2_0'', \<lparr>option_id = ''G'', option_text = ''high''\<rparr>)]"

text \<open>Two questionnaires whose collections have the same id.\<close>

definition same_id_catalog :: catalog where
  "same_id_catalog =
     [(''P1'', \<lparr>title = Some ''First'', question_collections =
         [\<lparr>collection_id = ''C1'', questions = [\<lparr>question_id = Some ''I1''\<rparr>]\<rparr>]\<rparr>),
      (''P2'', \<lparr>title = Some ''Second'', question_collections =
         [\<lparr>collection_id = ''C1'', questions = [\<lparr>question_id = Some ''I2''\<rparr>]\<rparr>]\<rparr>)]"

definition same_id_answers :: answers where
  "same_id_answers =
     [(''P1_C1_0'', \<lparr>option_id = ''A'', option_text = ''low''\<rparr>),
      (''P2_C1_0'', \<lparr>option_id = ''G'', option_text = ''high''\<rparr>)]"

definition same_id_indicators :: "string \<rightharpoonup> int" where
  "same_id_indicators = [''I1'' \<mapsto> 0, ''I2'' \<mapsto> 6]"

text \<open>Four questionnaires, three of them titled \<open>T\<close> and one without a title. Of those titled
  \<open>T\<close>, \<open>P2\<close> is the last with an answered collection: two of its three collections are
  answered, and the only collection of \<open>P3\<close> is not.\<close>

definition titles_catalog :: catalog where
  "titles_catalog =
     [(''P1'', \<lparr>title = Some ''T'', question_collections =
         [\<lparr>collection_id = ''C1'', questions = [\<lparr>question_id = Some ''I1''\<rparr>]\<rparr>,
          \<lparr>collection_id = ''C2'', questions = [\<lparr>question_id = Some ''I2''\<rparr>]\<rparr>]\<rparr>),
      (''P2'', \<lparr>title = Some ''T'', question_collections =
         [\<lparr>collection_id = ''C3'', questions = [\<lparr>question_id = Some ''I3''\<rparr>]\<rparr>,
          \<lparr>collection_id = ''C4'', questions = [\<lparr>question_id = Some ''I4''\<rparr>]\<rparr>,
          \<lparr>collection_id = ''C5'', questions = [\<lparr>question_id = Some ''I5''\<rparr>]\<rparr>]\<rparr>),
      (''P3'', \<lparr>title = Some ''T'', question_collections =
         [\<lparr>collection_id = ''C6'', questions = [\<lparr>question_id = Some ''I6''\<rparr>]\<rparr>]\<rparr>),
      (''P4'', \<lparr>title = None, question_collections =
         [\<lparr>collection_id = ''C7'', questions = [\<lparr>question_id = Some ''I7''\<rparr>]\<rparr>]\<rparr>)]"

definition titles_answers :: answers where
  "titles_answers =
     [(''P1_C1_0'', \<lparr>option_id = ''G'', option_text = ''high''\<rparr>),
      (''P2_C3_0'', \<lparr>option_id = ''B'', option_text = ''low''\<rparr>),
      (''P2_C4_0'', \<lparr>option_id = ''E'', option_text = ''more''\<rparr>),
      (''P4_C7_0'', \<lparr>option_id = ''C'', option_text = ''some''\<rparr>)]"

text \<open>Two questionnaires with distinct titles, the first with two answered collections.\<close>

definition two_page_catalog :: catalog where
  "two_page_catalog =
     [(''P1'', \<lparr>title = Some ''First'', question_collections =
         [\<lparr>collection_id = ''C1'', questions = [\<lparr>question_id = Some ''I1''\<rparr>]\<rparr>,
          \<lparr>collection_id = ''C2'', questions = [\<lparr>question_id = Some ''I2''\<rparr>]\<rparr>]\<rparr>),
      (''P2'', \<lparr>title = Some ''Second'', question_collections =
         [\<lparr>collection_id = ''C3'', questions = [\<lparr>question_id = Some ''I3''\<rparr>]\<rparr>]\<rparr>)]"

definition two_page_answers :: answers where
  "two_page_answers =
     [(''P1_C1_0'', \<lparr>option_id = ''B'', option_text = ''low''\<rparr>),
      (''P1_C2_0'', \<lparr>option_id = ''D'', option_text = ''mid''\<rparr>),
      (''P2_C3_0'', \<lparr>option_id = ''G'', option_text = ''high''\<rparr>)]"

text \<open>The progress example of the specification: two collections of three questions, two
  answers under the first.\<close>

definition progress_catalog :: catalog where
  "progress_catalog =
     [(''P'', \<lparr>title = None, question_collections =
         [\<lparr>collection_id = ''A'', questions =
             [\<lparr>question_id = Some ''I1''\<rparr>, \<lparr>question_id = Some ''I2''\<rparr>,
              \<lparr>question_id = Some ''I3''\<rparr>]\<rparr>,
          \<lparr>collection_id = ''B'', questions =
             [\<lparr>question_id = Some ''I4''\<rparr>, \<lparr>question_id = Some ''I5''\<rparr>,
              \<lparr>question_id = Some ''I6''\<rparr>]\<rparr>]\<rparr>)]"

definition progress_answers :: answers where
  "progress_answers =
     [(''P_A_0'', \<lparr>option_id = ''B'', option_text = ''yes''\<rparr>),
      (''P_A_2'', \<lparr>option_id = ''C'', option_text = ''no''\<rparr>)]"

text \<open>A page whose key is \<open>overall\<close>, beside another page.\<close>

definition overall_catalog :: catalog where
  "overall_catalog =
     [(''overall'', \<lparr>title = None, question_collections =
         [\<lparr>collection_id = ''C1'', questions = [\<lparr>question_id = Some ''I1''\<rparr>]\<rparr>]\<rparr>),
      (''P2'', \<lparr>title = None, question_collections =
         [\<lparr>collection_id = ''C2'', questions =
             [\<lparr>question_id = Some ''I2''\<rparr>, \<lparr>question_id = Some ''I3''\<rparr>]\<rparr>]\<rparr>)]"


section \<open>Properties\<close>

subsection \<open>The grade codec\<close>

lemma upper_char_letter:
  "upper_char c = CHR ''A'' \<longleftrightarrow> c = CHR ''A'' \<or> c = CHR ''a''"
  "upper_char c = CHR ''B'' \<longleftrightarrow> c = CHR ''B'' \<or> c = CHR ''b''"
  "upper_char c = CHR ''C'' \<longleftrightarrow> c = CHR ''C'' \<or> c = CHR ''c''"
  "upper_char c = CHR ''D'' \<longleftrightarrow> c = CHR ''D'' \<or> c = CHR ''d''"
  "upper_char c = CHR ''E'' \<longleftrightarrow> c = CHR ''E'' \<or> c = CHR ''e''"
  "upper_char c = CHR ''F'' \<longleftrightarrow> c = CHR ''F'' \<or> c = CHR ''f''"
  "upper_char c = CHR ''G'' \<longleftrightarrow> c = CHR ''G'' \<or> c = CHR ''g''"
  by (auto simp: upper_char_def)

lemma py_upper_single:
  "py_upper s = [d] \<longleftrightarrow> (\<exists>c. s = [c] \<and> upper_char c = d)"
  by (cases s) (auto simp: py_upper_def)

lemma py_upper_letter:
  "py_upper s = ''A'' \<longleftrightarrow> s = ''A'' \<or> s = ''a''"
  "py_upper s = ''B'' \<longleftrightarrow> s = ''B'' \<or> s = ''b''"
  "py_upper s = ''C'' \<longleftrightarrow> s = ''C'' \<or> s = ''c''"
  "py_upper s = ''D'' \<longleftrightarrow> s = ''D'' \<or> s = ''d''"
  "py_upper s = ''E'' \<longleftrightarrow> s = ''E'' \<or> s = ''e''"
  "py_upper s = ''F'' \<longleftrightarrow> s = ''F'' \<or> s = ''f''"
  "py_upper s = ''G'' \<longleftrightarrow> s = ''G'' \<or> s = ''g''"
  by (auto simp: py_upper_single upper_char_letter)

lemma option_id_to_grade_upper:
  "option_id_to_grade s =
     (if py_upper s = ''A'' then 0
      else if py_upper s = ''B'' then 1
      else if py_upper s = ''C'' then 2
      else if py_upper s = ''D'' then 3
      else if py_upper s = ''E'' then 4
      else if py_upper s = ''F'' then 5
      else if py_upper s = ''G'' then 6
      else 0)"
  by (simp add: option_id_to_grade_def GRADE_MAPPING_def)

text \<open>
  Claim C6. For every string \<open>s\<close>, \<open>option_id_to_grade s\<close> is the value of the upper-cased
  \<open>s\<close> in the table A to 0, ..., G to 6, and 0 for every string outside the table: the one-letter
  strings a to g and A to G get their position, everything else 0; so \<open>'a'\<close> and \<open>'A'\<close> give 0,
  \<open>'G'\<close> gives 6 and \<open>'Z'\<close> gives 0. The function has no failing branch: neither
  \<open>str.upper\<close> nor \<open>dict.get\<close> with a default raises.
\<close>

theorem option_id_to_grade_table:
  "option_id_to_grade s =
     (case map_of GRADE_MAPPING (py_upper s) of Some g \<Rightarrow> g | None \<Rightarrow> 0)
   \<and> option_id_to_grade s =
     (if s = ''A'' \<or> s = ''a'' then 0
      else if s = ''B'' \<or> s = ''b'' then 1
      else if s = ''C'' \<or> s = ''c'' then 2
      else if s = ''D'' \<or> s = ''d'' then 3
      else if s = ''E'' \<or> s = ''e'' then 4
      else if s = ''F'' \<or> s = ''f'' then 5
      else if s = ''G'' \<or> s = ''g'' then 6
      else 0)
   \<and> option_id_to_grade ''a'' = 0 \<and> option_id_to_grade ''A'' = 0
   \<and> option_id_to_grade ''G'' = 6 \<and> option_id_to_grade ''Z'' = 0"
proof -
  have "option_id_to_grade s =
     (if s = ''A'' \<or> s = ''a'' then 0
      else if s = ''B'' \<or> s = ''b'' then 1
      else if s = ''C'' \<or> s = ''c'' then 2
      else if s = ''D'' \<or> s = ''d'' then 3
      else if s = ''E'' \<or> s = ''e'' then 4
      else if s = ''F'' \<or> s = ''f'' then 5
      else if s = ''G'' \<or> s = ''g'' then 6
      else 0)"
    unfolding option_id_to_grade_upper py_upper_letter ..
  moreover have "option_id_to_grade ''a'' = 0" "option_id_to_grade ''A'' = 0"
    "option_id_to_grade ''G'' = 6" "option_id_to_grade ''Z'' = 0"
    by (simp_all add: option_id_to_grade_upper py_upper_letter)
  ultimately show ?thesis
    by (simp add: option_id_to_grade_def)
qed

lemma option_id_to_grade_range: "0 \<le> option_id_to_grade s \<and> option_id_to_grade s \<le> 6"
  by (simp add: option_id_to_grade_upper)

lemma py_round_cases:
  fixes x :: rat
  obtains (down) "x - of_int \<lfloor>x\<rfloor> < 1 / 2" "py_round x = \<lfloor>x\<rfloor>"
  | (up) "1 / 2 < x - of_int \<lfloor>x\<rfloor>" "py_round x = \<lfloor>x\<rfloor> + 1"
  | (tie_even) "x - of_int \<lfloor>x\<rfloor> = 1 / 2" "even \<lfloor>x\<rfloor>" "py_round x = \<lfloor>x\<rfloor>"
  | (tie_odd) "x - of_int \<lfloor>x\<rfloor> = 1 / 2" "odd \<lfloor>x\<rfloor>" "py_round x = \<lfloor>x\<rfloor> + 1"
  unfolding py_round_def Let_def by (cases "x - of_int \<lfloor>x\<rfloor>" "1 / 2 :: rat" rule: linorder_cases) auto

lemma floor_rat_numeral: "\<lfloor>numeral a / numeral b :: rat\<rfloor> = numeral a div numeral b"
  using floor_divide_of_int_eq [of "numeral a" "numeral b", where ?'a = rat] by simp

lemma py_round_nearest: "\<bar>x - of_int (py_round x)\<bar> \<le> 1 / 2"
proof -
  have b: "of_int \<lfloor>x\<rfloor> \<le> x" "x < of_int \<lfloor>x\<rfloor> + 1" by linarith+
  show ?thesis
  proof (cases x rule: py_round_cases)
    case down
    then show ?thesis using b by (simp add: abs_le_iff)
  next
    case up
    then show ?thesis using b by (simp add: abs_le_iff)
  next
    case tie_even
    then show ?thesis by simp
  next
    case tie_odd
    then show ?thesis using b by (simp add: abs_le_iff)
  qed
qed

lemma py_round_tie: "\<bar>x - of_int (py_round x)\<bar> = 1 / 2 \<Longrightarrow> even (py_round x)"
proof -
  assume a: "\<bar>x - of_int (py_round x)\<bar> = 1 / 2"
  have b: "of_int \<lfloor>x\<rfloor> \<le> x" "x < of_int \<lfloor>x\<rfloor> + 1" by linarith+
  show ?thesis
  proof (cases x rule: py_round_cases)
    case down
    then show ?thesis using a b by (simp add: abs_if split: if_splits)
  next
    case up
    then show ?thesis using a b by (simp add: abs_if split: if_splits)
  next
    case tie_even
    then show ?thesis by simp
  next
    case tie_odd
    then show ?thesis by simp
  qed
qed

lemma py_round_range:
  assumes "0 \<le> x" "x \<le> 6"
  shows "0 \<le> py_round x \<and> py_round x \<le> 6"
proof -
  have f0: "0 \<le> \<lfloor>x\<rfloor>" using assms by simp
  have f6: "\<lfloor>x\<rfloor> \<le> 6" using assms by (simp add: floor_le_iff)
  show ?thesis
  proof (cases "\<lfloor>x\<rfloor> = 6")
    case True
    then have "of_int 6 \<le> x" by (metis of_int_floor_le)
    then have "x - of_int \<lfloor>x\<rfloor> \<le> 0" using assms True by simp
    then show ?thesis using True by (cases x rule: py_round_cases) simp_all
  next
    case False
    with f6 have "\<lfloor>x\<rfloor> \<le> 5" by linarith
    then show ?thesis using f0 by (cases x rule: py_round_cases) simp_all
  qed
qed

lemma LETTER_MAPPING_index:
  "0 \<le> i \<Longrightarrow> i \<le> 6 \<Longrightarrow> py_index LETTER_MAPPING i = Inr (LETTER_MAPPING ! nat i)"
  by (simp add: py_index_def LETTER_MAPPING_def)

text \<open>
  Claim C5, as the code has it. For every grade \<open>g\<close> with \<open>0 \<le> g \<le> 6\<close>,
  \<open>grade_to_letter g\<close> returns the letter at position \<open>round g\<close> of the alphabet A to G, where
  \<open>round\<close> is Python's: an integer in 0..6 at distance at most one half from \<open>g\<close>, the even
  one when \<open>g\<close> lies halfway between two integers. So 0 gives A, 6 gives G, 3.5 gives E
  (position 4) and 2.5 gives C (position 2). Every \<open>g\<close> outside the range gives A.
\<close>

theorem grade_to_letter_rounds:
  "(0 \<le> g \<and> g \<le> 6 \<longrightarrow>
      grade_to_letter g = Inr (LETTER_MAPPING ! nat (py_round g))
      \<and> 0 \<le> py_round g \<and> py_round g \<le> 6
      \<and> \<bar>g - of_int (py_round g)\<bar> \<le> 1 / 2
      \<and> (\<bar>g - of_int (py_round g)\<bar> = 1 / 2 \<longrightarrow> even (py_round g)))
   \<and> (\<not> (0 \<le> g \<and> g \<le> 6) \<longrightarrow> grade_to_letter g = Inr ''A'')
   \<and> grade_to_letter 0 = Inr ''A'' \<and> grade_to_letter 6 = Inr ''G''
   \<and> grade_to_letter (7 / 2) = Inr ''E'' \<and> grade_to_letter (5 / 2) = Inr ''C''
   \<and> grade_to_letter 7 = Inr ''A''"
proof -
  have ex: "py_round 0 = 0" "py_round 6 = 6" "py_round (7 / 2) = 4" "py_round (5 / 2) = 2"
    by (simp_all add: py_round_def Let_def floor_rat_numeral)
  have "grade_to_letter g = Inr (LETTER_MAPPING ! nat (py_round g))" if "0 \<le> g \<and> g \<le> 6"
    using that py_round_range [of g] by (simp add: grade_to_letter_def LETTER_MAPPING_index)
  moreover have "grade_to_letter 0 = Inr ''A''" "grade_to_letter 6 = Inr ''G''"
    "grade_to_letter (7 / 2) = Inr ''E''" "grade_to_letter (5 / 2) = Inr ''C''"
    "grade_to_letter 7 = Inr ''A''"
    by (simp_all add: grade_to_letter_def ex py_index_def LETTER_MAPPING_def)
  ultimately show ?thesis
    using py_round_range [of g] py_round_nearest [of g] py_round_tie [of g]
    by (simp add: grade_to_letter_def)
qed

theorem grade_to_letter_rounds_witness:
  "grade_to_letter (3 / 2) = Inr ''C'' \<and> py_round (3 / 2) = 2
   \<and> grade_to_letter (-1) = Inr ''A''"
proof -
  have r: "py_round (3 / 2) = 2" by (simp add: py_round_def Let_def floor_rat_numeral)
  show ?thesis
    using grade_to_letter_rounds [of "3 / 2"] grade_to_letter_rounds [of "-1"]
    by (simp add: r LETTER_MAPPING_def)
qed

text \<open>The claim's example: 3.5 does not give D. It rounds to 4, and position 4 holds E.\<close>

theorem grade_to_letter_half_counterexample:
  "grade_to_letter (7 / 2) = Inr ''E'' \<and> grade_to_letter (7 / 2) \<noteq> Inr ''D''"
  by (simp add: grade_to_letter_def py_round_def Let_def py_index_def LETTER_MAPPING_def
      floor_rat_numeral)

subsection \<open>Every score lies between 0 and 6\<close>

lemma scan_collections_bounds:
  assumes "scan_collections cs cid qi ad m = Inr m'"
    and "\<And>k v. m k = Some v \<Longrightarrow> 0 \<le> v \<and> v \<le> 6"
    and "m' k = Some v"
  shows "0 \<le> v \<and> v \<le> 6"
  using assms
proof (induction cs)
  case Nil
  then show ?case by simp
next
  case (Cons c cs)
  show ?case
  proof (cases "collection_id c = cid \<and> qi < int (length (questions c))")
    case True
    with Cons.prems(1) obtain q :: question where
      m': "m' = m((case question_id q of Some i \<Rightarrow> i | None \<Rightarrow> cid @ ''_'' @ py_str qi)
                 \<mapsto> option_id_to_grade (option_id ad))"
      by (auto split: sum.splits)
    show ?thesis
      using Cons.prems(3) Cons.prems(2) option_id_to_grade_range [of "option_id ad"]
      unfolding m' by (auto split: if_splits)
  next
    case False
    with Cons.prems(1) have "scan_collections cs cid qi ad m = Inr m'" by auto
    then show ?thesis using Cons.IH Cons.prems(2,3) by blast
  qed
qed

lemma indicator_loop_bounds:
  assumes "indicator_loop qf ans m = Inr m'"
    and "\<And>k v. m k = Some v \<Longrightarrow> 0 \<le> v \<and> v \<le> 6"
    and "m' k = Some v"
  shows "0 \<le> v \<and> v \<le> 6"
  using assms
proof (induction qf ans m rule: indicator_loop.induct)
  case (1 qf m)
  then show ?case by simp
next
  case (2 qf answer_key answer_data rest m)
  let ?parts = "py_split CHR ''_'' answer_key"
  show ?case
  proof (cases "length ?parts < 3")
    case True
    then show ?thesis using 2 by (simp add: Let_def)
  next
    case False
    then obtain qi where qi: "py_int (?parts ! 2) = Inr qi"
      using "2.prems"(1) by (auto simp: Let_def split: sum.splits)
    show ?thesis
    proof (cases "map_of qf (?parts ! 0)")
      case None
      then show ?thesis using 2 False qi by (simp add: Let_def)
    next
      case (Some page)
      then obtain m1 where
        m1: "scan_collections (question_collections page) (?parts ! 1) qi answer_data m = Inr m1"
        and rest: "indicator_loop qf rest m1 = Inr m'"
        using "2.prems"(1) False qi by (auto simp: Let_def split: sum.splits)
      have "\<And>k v. m1 k = Some v \<Longrightarrow> 0 \<le> v \<and> v \<le> 6"
        using scan_collections_bounds [OF m1] "2.prems"(2) by blast
      then show ?thesis
        using "2.IH"(3) [OF refl False qi Some m1 rest] "2.prems"(3) by blast
    qed
  qed
qed

lemma question_scores_from_map:
  "x \<in> set (question_scores ind qs) \<Longrightarrow> \<exists>k. ind k = Some x"
  by (induction qs) (auto split: option.splits if_splits)

lemma sum_list_int_bounds:
  fixes xs :: "int list"
  assumes "\<And>x. x \<in> set xs \<Longrightarrow> 0 \<le> x \<and> x \<le> 6"
  shows "0 \<le> sum_list xs \<and> sum_list xs \<le> 6 * int (length xs)"
  using assms by (induction xs) (auto, force+)

lemma sum_list_rat_bounds:
  fixes xs :: "rat list"
  assumes "\<And>x. x \<in> set xs \<Longrightarrow> 0 \<le> x \<and> x \<le> 6"
  shows "0 \<le> sum_list xs \<and> sum_list xs \<le> 6 * of_nat (length xs)"
  using assms by (induction xs) (auto simp: algebra_simps, force+)

lemma mean_int_bounds:
  assumes "xs \<noteq> []" and "\<And>x. x \<in> set xs \<Longrightarrow> 0 \<le> x \<and> x \<le> 6"
  shows "0 \<le> mean_int xs \<and> mean_int xs \<le> 6"
proof -
  have n: "(0::rat) < of_nat (length xs)" using assms(1) by simp
  have s: "0 \<le> sum_list xs" "sum_list xs \<le> 6 * int (length xs)"
    using sum_list_int_bounds [of xs] assms(2) by blast+
  have "(of_int (sum_list xs) :: rat) \<le> of_int (6 * int (length xs))"
    using s(2) by (rule of_int_le_iff [THEN iffD2])
  then have "(of_int (sum_list xs) :: rat) \<le> 6 * of_nat (length xs)" by simp
  then show ?thesis
    using n s(1) by (simp add: mean_int_def pos_divide_le_eq)
qed

lemma mean_rat_bounds:
  assumes "xs \<noteq> []" and "\<And>x. x \<in> set xs \<Longrightarrow> 0 \<le> x \<and> x \<le> 6"
  shows "0 \<le> mean_rat xs \<and> mean_rat xs \<le> 6"
proof -
  have n: "(0::rat) < of_nat (length xs)" using assms(1) by simp
  have s: "0 \<le> sum_list xs" "sum_list xs \<le> 6 * of_nat (length xs)"
    using sum_list_rat_bounds [of xs] assms(2) by blast+
  then show ?thesis
    using n by (simp add: mean_rat_def pos_divide_le_eq)
qed

lemma criterion_collections_bounds:
  assumes "\<And>k v. ind k = Some v \<Longrightarrow> 0 \<le> v \<and> v \<le> 6"
    and "\<And>k v. crit k = Some v \<Longrightarrow> 0 \<le> v \<and> v \<le> 6"
    and "criterion_collections ind cs crit k = Some v"
  shows "0 \<le> v \<and> v \<le> 6"
  using assms(2,3)
proof (induction cs arbitrary: crit)
  case Nil
  then show ?case by simp
next
  case (Cons c cs)
  let ?scores = "question_scores ind (questions c)"
  let ?crit = "if ?scores \<noteq> [] then crit(collection_id c \<mapsto> mean_int ?scores) else crit"
  have "\<And>k v. ?crit k = Some v \<Longrightarrow> 0 \<le> v \<and> v \<le> 6"
  proof -
    fix k v assume a: "?crit k = Some v"
    show "0 \<le> v \<and> v \<le> 6"
    proof (cases "?scores \<noteq> [] \<and> k = collection_id c")
      case True
      then have "v = mean_int ?scores" using a by simp
      moreover have "\<And>x. x \<in> set ?scores \<Longrightarrow> 0 \<le> x \<and> x \<le> 6"
        using question_scores_from_map assms(1) by blast
      ultimately show ?thesis using mean_int_bounds True by blast
    next
      case False
      then have "crit k = Some v" using a by (auto split: if_splits)
      then show ?thesis using Cons.prems(1) by blast
    qed
  qed
  moreover have "criterion_collections ind cs ?crit k = Some v"
    using Cons.prems(2) by (simp add: Let_def)
  ultimately show ?case using Cons.IH by blast
qed

lemma criterion_pages_bounds:
  assumes "\<And>k v. ind k = Some v \<Longrightarrow> 0 \<le> v \<and> v \<le> 6"
    and "\<And>k v. crit k = Some v \<Longrightarrow> 0 \<le> v \<and> v \<le> 6"
    and "criterion_pages ind qf crit k = Some v"
  shows "0 \<le> v \<and> v \<le> 6"
  using assms(2,3)
proof (induction qf arbitrary: crit)
  case Nil
  then show ?case by simp
next
  case (Cons p qf)
  obtain page_key page_data where p: "p = (page_key, page_data)" by (cases p)
  have "\<And>k v. criterion_collections ind (question_collections page_data) crit k = Some v
          \<Longrightarrow> 0 \<le> v \<and> v \<le> 6"
  proof -
    fix k v
    assume "criterion_collections ind (question_collections page_data) crit k = Some v"
    then show "0 \<le> v \<and> v \<le> 6"
      by (rule criterion_collections_bounds [rotated 2]) (use assms(1) Cons.prems(1) in blast)+
  qed
  moreover have "criterion_pages ind qf
      (criterion_collections ind (question_collections page_data) crit) k = Some v"
    using Cons.prems(2) unfolding p by simp
  ultimately show ?case using Cons.IH by blast
qed

lemma collection_values_from_map:
  "x \<in> set (collection_values crit cs) \<Longrightarrow> \<exists>k. crit k = Some x"
  by (induction cs) (auto split: option.splits)

lemma value_pages_bounds:
  assumes "\<And>k v. crit k = Some v \<Longrightarrow> 0 \<le> v \<and> v \<le> 6"
    and "\<And>k v. vals k = Some v \<Longrightarrow> 0 \<le> v \<and> v \<le> 6"
    and "value_pages crit qf vals k = Some v"
  shows "0 \<le> v \<and> v \<le> 6"
  using assms(2,3)
proof (induction qf arbitrary: vals)
  case Nil
  then show ?case by simp
next
  case (Cons p qf)
  obtain page_key page_data where p: "p = (page_key, page_data)" by (cases p)
  let ?scores = "collection_values crit (question_collections page_data)"
  let ?vals = "if ?scores \<noteq> [] then vals(value_name page_key page_data \<mapsto> mean_rat ?scores)
               else vals"
  have "\<And>k v. ?vals k = Some v \<Longrightarrow> 0 \<le> v \<and> v \<le> 6"
  proof -
    fix k v assume a: "?vals k = Some v"
    show "0 \<le> v \<and> v \<le> 6"
    proof (cases "?scores \<noteq> [] \<and> k = value_name page_key page_data")
      case True
      then have "v = mean_rat ?scores" using a by simp
      moreover have "\<And>x. x \<in> set ?scores \<Longrightarrow> 0 \<le> x \<and> x \<le> 6"
        using collection_values_from_map assms(1) by blast
      ultimately show ?thesis using mean_rat_bounds True by blast
    next
      case False
      then have "vals k = Some v" using a by (auto split: if_splits)
      then show ?thesis using Cons.prems(1) by blast
    qed
  qed
  moreover have "value_pages crit qf ?vals k = Some v"
    using Cons.prems(2) unfolding p by (simp add: Let_def)
  ultimately show ?case using Cons.IH by blast
qed

subsection \<open>Which entry a pass leaves under a key\<close>

lemma criterion_collections_append:
  "criterion_collections ind (xs @ ys) crit
     = criterion_collections ind ys (criterion_collections ind xs crit)"
  by (induction xs arbitrary: crit) (simp_all add: Let_def)

lemma criterion_collections_skip:
  assumes "\<forall>col\<in>set cs. collection_id col = c \<longrightarrow> question_scores ind (questions col) = []"
  shows "criterion_collections ind cs crit c = crit c"
  using assms by (induction cs arbitrary: crit) (auto simp: Let_def)

lemma criterion_collections_last:
  assumes "question_scores ind (questions col) \<noteq> []"
    and "\<forall>col'\<in>set ys. collection_id col' = collection_id col
           \<longrightarrow> question_scores ind (questions col') = []"
  shows "criterion_collections ind (xs @ col # ys) crit (collection_id col)
           = Some (mean_int (question_scores ind (questions col)))"
  using assms
  by (simp add: criterion_collections_append criterion_collections_skip Let_def)

lemma criterion_pages_flat:
  "criterion_pages ind qf crit
     = criterion_collections ind (concat (map (\<lambda>(k, q). question_collections q) qf)) crit"
  by (induction qf arbitrary: crit) (auto simp: criterion_collections_append)

lemma criterion_collections_dom:
  "criterion_collections ind cs crit c \<noteq> None \<longleftrightarrow>
     crit c \<noteq> None
     \<or> (\<exists>col\<in>set cs. collection_id col = c \<and> question_scores ind (questions col) \<noteq> [])"
  by (induction cs arbitrary: crit) (auto simp: Let_def)

lemma collection_values_filter:
  "collection_values crit cs
     = map (\<lambda>c. the (crit (collection_id c))) (filter (\<lambda>c. crit (collection_id c) \<noteq> None) cs)"
  by (induction cs) (auto split: option.splits)

lemma collection_values_empty:
  "collection_values crit cs = [] \<longleftrightarrow> (\<forall>c\<in>set cs. crit (collection_id c) = None)"
  by (induction cs) (auto split: option.splits)

lemma collection_values_shared:
  "crit c = Some m \<Longrightarrow>
   collection_values crit cs
     = concat (map (\<lambda>col. if collection_id col = c then [m]
                           else (case crit (collection_id col) of
                                   Some s \<Rightarrow> [s]
                                 | None \<Rightarrow> [])) cs)"
  by (induction cs) (auto split: option.splits)

lemma value_pages_append:
  "value_pages crit (xs @ ys) vals = value_pages crit ys (value_pages crit xs vals)"
  by (induction xs arbitrary: vals) (auto simp: Let_def)

lemma value_pages_skip:
  assumes "\<forall>(k, q)\<in>set qf. value_name k q = t
             \<longrightarrow> collection_values crit (question_collections q) = []"
  shows "value_pages crit qf vals t = vals t"
  using assms by (induction qf arbitrary: vals) (auto simp: Let_def)

lemma value_pages_last:
  assumes "collection_values crit (question_collections q) \<noteq> []"
    and "\<forall>(k', q')\<in>set post. value_name k' q' = value_name k q
           \<longrightarrow> collection_values crit (question_collections q') = []"
  shows "value_pages crit (pre @ (k, q) # post) vals (value_name k q)
           = Some (mean_rat (collection_values crit (question_collections q)))"
  using assms by (simp add: value_pages_append value_pages_skip Let_def)

lemma value_pages_dom:
  "value_pages crit qf vals t \<noteq> None \<longleftrightarrow>
     vals t \<noteq> None
     \<or> (\<exists>(k, q)\<in>set qf. value_name k q = t
           \<and> collection_values crit (question_collections q) \<noteq> [])"
proof (induction qf arbitrary: vals)
  case Nil
  then show ?case by simp
next
  case (Cons p qf)
  obtain k q where p: "p = (k, q)" by (cases p)
  let ?scores = "collection_values crit (question_collections q)"
  let ?vals = "if ?scores \<noteq> [] then vals(value_name k q \<mapsto> mean_rat ?scores) else vals"
  have step: "value_pages crit (p # qf) vals t = value_pages crit qf ?vals t"
    unfolding p by (simp add: Let_def)
  have here: "?vals t \<noteq> None \<longleftrightarrow> vals t \<noteq> None \<or> (value_name k q = t \<and> ?scores \<noteq> [])"
    by simp
  have "value_pages crit (p # qf) vals t \<noteq> None \<longleftrightarrow>
          ?vals t \<noteq> None
          \<or> (\<exists>(k, q)\<in>set qf. value_name k q = t
                \<and> collection_values crit (question_collections q) \<noteq> [])"
    unfolding step by (rule Cons.IH)
  also have "\<dots> \<longleftrightarrow>
          vals t \<noteq> None
          \<or> (\<exists>(k, q)\<in>set (p # qf). value_name k q = t
                \<and> collection_values crit (question_collections q) \<noteq> [])"
    unfolding here by (auto simp: p)
  finally show ?case .
qed

lemma calculate_all_scores_value:
  assumes "fst (calculate_all_scores self ans) = Inr sd"
  shows "value_scores sd = calculate_value_scores (question_files self) (criterion_scores sd)
         \<or> (ans = [] \<and> value_scores sd = Map.empty \<and> criterion_scores sd = Map.empty)"
  using assms
  by (auto simp: calculate_all_scores_def Let_def split: sum.splits if_splits)

lemma value_pages_no_criteria: "value_pages Map.empty qf vals = vals"
  by (induction qf arbitrary: vals) (auto simp: Let_def collection_values_empty)

lemma calculate_all_scores_value_pass:
  assumes "fst (calculate_all_scores self ans) = Inr sd"
  shows "value_scores sd = value_pages (criterion_scores sd) (question_files self) Map.empty"
  using calculate_all_scores_value [OF assms]
  by (auto simp: calculate_value_scores_def value_pages_no_criteria)

subsection \<open>The progress report\<close>

lemma py_startswith_iff: "py_startswith s p \<longleftrightarrow> (\<exists>r. s = p @ r)"
  unfolding py_startswith_def
  by (metis append_eq_conv_conj append_take_drop_id)

lemma progress_collections_sums:
  "progress_collections page ans cs (t, a)
     = (t + sum_list (map (\<lambda>c. int (length (questions c))) cs),
        a + sum_list (map (\<lambda>c. int (length (filter
              (\<lambda>k. py_startswith k (page @ ''_'' @ collection_id c)) (map fst ans)))) cs))"
  by (induction cs arbitrary: t a) (simp_all add: Let_def)

lemma progress_collections_page:
  "progress_collections page ans (question_collections q) (0, 0)
     = (page_total q, page_answered page q ans)"
  by (simp add: progress_collections_sums page_total_def page_answered_def)

lemma progress_pages_counts:
  "snd (progress_pages ans qf (pd, t, a))
     = (t + sum_list (map (\<lambda>(k, q). page_total q) qf),
        a + sum_list (map (\<lambda>(k, q). page_answered k q ans) qf))"
  by (induction qf arbitrary: pd t a) (auto simp: progress_collections_page)

lemma progress_pages_other:
  "page \<notin> fst ` set qf \<Longrightarrow> fst (progress_pages ans qf (pd, t, a)) page = pd page"
  by (induction qf arbitrary: pd t a) (auto simp: progress_collections_page)

lemma progress_pages_entry:
  assumes "distinct (map fst qf)" and "(page, q) \<in> set qf"
  shows "fst (progress_pages ans qf (pd, t, a)) page
           = Some (make_entry (page_total q) (page_answered page q ans))"
  using assms
proof (induction qf arbitrary: pd t a)
  case Nil
  then show ?case by simp
next
  case (Cons p qf)
  obtain k q' where p: "p = (k, q')" by (cases p)
  show ?case
  proof (cases "(page, q) = p")
    case True
    have n: "page \<notin> fst ` set qf" using Cons.prems(1) True [symmetric] by simp
    have "progress_pages ans (p # qf) (pd, t, a)
            = progress_pages ans qf
                (pd(page \<mapsto> make_entry (page_total q) (page_answered page q ans)),
                 t + page_total q, a + page_answered page q ans)"
      using True by (auto simp: progress_collections_page)
    then show ?thesis
      by (simp add: progress_pages_other [OF n])
  next
    case False
    then have "(page, q) \<in> set qf" using Cons.prems(2) by simp
    moreover have "distinct (map fst qf)" using Cons.prems(1) by simp
    ultimately show ?thesis
      using Cons.IH unfolding p by (simp add: progress_collections_page)
  qed
qed

lemma page_total_nonneg: "0 \<le> page_total q"
  unfolding page_total_def by (rule sum_list_nonneg) auto

subsection \<open>The passes on the concrete catalogs\<close>

lemma py_int_digit [simp]: "py_int ''0'' = Inr 0" "py_int ''1'' = Inr 1"
  by (simp_all add: py_int_def py_strip_def is_space_def is_digit_def)

lemma py_str_0: "py_str 0 = ''0''"
  by (simp add: py_str_def digits_of.simps)

lemma demo_scores:
  "fst (calculate_all_scores \<lparr>question_files = demo_catalog, score_cache = None\<rparr> demo_answers)
     = Inr \<lparr>indicator_scores = [''I1'' \<mapsto> 1, ''I2'' \<mapsto> 3],
            criterion_scores = [''C1'' \<mapsto> 2], value_scores = [''Quality'' \<mapsto> 2]\<rparr>"
proof -
  have "calculate_indicator_scores demo_catalog demo_answers
     = Inr [''I1'' \<mapsto> 1, ''I2'' \<mapsto> 3]"
    by (simp add: calculate_indicator_scores_def demo_catalog_def demo_answers_def
        py_index_def option_id_to_grade_def py_upper_def upper_char_def GRADE_MAPPING_def)
  then show ?thesis
    by (simp add: calculate_all_scores_def demo_answers_def)
      (simp add: demo_catalog_def calculate_criterion_scores_def calculate_value_scores_def
        mean_int_def mean_rat_def value_name_def Let_def)
qed

lemma same_title_scores:
  "fst (calculate_all_scores \<lparr>question_files = same_title_catalog, score_cache = None\<rparr>
          same_title_answers)
     = Inr \<lparr>indicator_scores = [''I1'' \<mapsto> 0, ''I2'' \<mapsto> 6],
            criterion_scores = [''C1'' \<mapsto> 0, ''C2'' \<mapsto> 6],
            value_scores = [''T'' \<mapsto> 6]\<rparr>"
proof -
  have "calculate_indicator_scores same_title_catalog same_title_answers
          = Inr [''I1'' \<mapsto> 0, ''I2'' \<mapsto> 6]"
    by (simp add: calculate_indicator_scores_def same_title_catalog_def same_title_answers_def
        py_index_def option_id_to_grade_def py_upper_def upper_char_def GRADE_MAPPING_def)
  then show ?thesis
    by (simp add: calculate_all_scores_def same_title_answers_def)
      (simp add: same_title_catalog_def calculate_criterion_scores_def
        calculate_value_scores_def mean_int_def mean_rat_def value_name_def Let_def)
qed

lemma titles_scores:
  "fst (calculate_all_scores \<lparr>question_files = titles_catalog, score_cache = None\<rparr>
          titles_answers)
     = Inr \<lparr>indicator_scores = [''I1'' \<mapsto> 6, ''I3'' \<mapsto> 1, ''I4'' \<mapsto> 4, ''I7'' \<mapsto> 2],
            criterion_scores = [''C1'' \<mapsto> 6, ''C3'' \<mapsto> 1, ''C4'' \<mapsto> 4, ''C7'' \<mapsto> 2],
            value_scores = calculate_value_scores titles_catalog
              [''C1'' \<mapsto> 6, ''C3'' \<mapsto> 1, ''C4'' \<mapsto> 4, ''C7'' \<mapsto> 2]\<rparr>"
proof -
  have i: "calculate_indicator_scores titles_catalog titles_answers
          = Inr [''I1'' \<mapsto> 6, ''I3'' \<mapsto> 1, ''I4'' \<mapsto> 4, ''I7'' \<mapsto> 2]"
    by (simp add: calculate_indicator_scores_def titles_catalog_def titles_answers_def
        py_index_def option_id_to_grade_def py_upper_def upper_char_def GRADE_MAPPING_def)
  have c: "calculate_criterion_scores titles_catalog
             [''I1'' \<mapsto> 6, ''I3'' \<mapsto> 1, ''I4'' \<mapsto> 4, ''I7'' \<mapsto> 2]
          = [''C1'' \<mapsto> 6, ''C3'' \<mapsto> 1, ''C4'' \<mapsto> 4, ''C7'' \<mapsto> 2]"
    by (simp add: titles_catalog_def calculate_criterion_scores_def mean_int_def Let_def)
  have n: "titles_answers \<noteq> []" by (simp add: titles_answers_def)
  show ?thesis
    by (simp add: calculate_all_scores_def n i c Let_def)
qed

lemma two_page_scores:
  "fst (calculate_all_scores \<lparr>question_files = two_page_catalog, score_cache = None\<rparr>
          two_page_answers)
     = Inr \<lparr>indicator_scores = [''I1'' \<mapsto> 1, ''I2'' \<mapsto> 3, ''I3'' \<mapsto> 6],
            criterion_scores = [''C1'' \<mapsto> 1, ''C2'' \<mapsto> 3, ''C3'' \<mapsto> 6],
            value_scores = calculate_value_scores two_page_catalog
              [''C1'' \<mapsto> 1, ''C2'' \<mapsto> 3, ''C3'' \<mapsto> 6]\<rparr>"
proof -
  have i: "calculate_indicator_scores two_page_catalog two_page_answers
          = Inr [''I1'' \<mapsto> 1, ''I2'' \<mapsto> 3, ''I3'' \<mapsto> 6]"
    by (simp add: calculate_indicator_scores_def two_page_catalog_def two_page_answers_def
        py_index_def option_id_to_grade_def py_upper_def upper_char_def GRADE_MAPPING_def)
  have c: "calculate_criterion_scores two_page_catalog
             [''I1'' \<mapsto> 1, ''I2'' \<mapsto> 3, ''I3'' \<mapsto> 6]
          = [''C1'' \<mapsto> 1, ''C2'' \<mapsto> 3, ''C3'' \<mapsto> 6]"
    by (simp add: two_page_catalog_def calculate_criterion_scores_def mean_int_def Let_def)
  have n: "two_page_answers \<noteq> []" by (simp add: two_page_answers_def)
  show ?thesis
    by (simp add: calculate_all_scores_def n i c Let_def)
qed

lemma same_id_indicator_pass:
  "calculate_indicator_scores same_id_catalog same_id_answers = Inr same_id_indicators"
  by (simp add: calculate_indicator_scores_def same_id_catalog_def same_id_answers_def
      same_id_indicators_def py_index_def option_id_to_grade_def py_upper_def upper_char_def
      GRADE_MAPPING_def)

lemma progress_startswith [simp]:
  "py_startswith ''P_A_0'' ''P_A''" "py_startswith ''P_A_2'' ''P_A''"
  "\<not> py_startswith ''P_A_0'' ''P_B''" "\<not> py_startswith ''P_A_2'' ''P_B''"
  by (simp_all add: py_startswith_def)

section \<open>The claims\<close>

text \<open>
  Claim C1 says that \<open>calculate_all_scores\<close> returns normally on every answers map. The
  indicator pass converts the third segment of every key of three or more segments with
  \<open>int\<close>, before any lookup, and nothing catches its \<open>ValueError\<close>. For the page key
  \<open>data_protection\<close> the key that the application itself stores for the first question,
  \<open>data_protection_C1_0\<close>, has the third segment \<open>C1\<close>: the call raises.
\<close>

theorem calculate_all_scores_raises:
  "fst (calculate_all_scores \<lparr>question_files = underscore_catalog, score_cache = None\<rparr>
          underscore_answers) = Inl ValueError"
  by (simp add: calculate_all_scores_def calculate_indicator_scores_def underscore_answers_def
        py_int_def py_strip_def is_space_def is_digit_def)

text \<open>
  Claim C2 says that a question without \<open>question_id\<close> counts in the criterion pass under
  its fallback id. The indicator pass stores the grade of such a question under
  \<open>"<collection_id>_<index>"\<close>; the criterion pass reads \<open>question.get('question_id')\<close>
  with no fallback and passes the question over. The catalog has one collection \<open>C1\<close> with one
  question without id, answered B: the indicator map holds \<open>C1_0\<close> with grade 1, and the
  criterion map has no entry for \<open>C1\<close> (nor the value map for the questionnaire).
\<close>

theorem fallback_id_not_averaged:
  "fst (calculate_all_scores \<lparr>question_files = unnamed_catalog, score_cache = None\<rparr>
          unnamed_answers)
     = Inr \<lparr>indicator_scores = [''C1_0'' \<mapsto> 1], criterion_scores = Map.empty,
            value_scores = Map.empty\<rparr>"
proof -
  have "calculate_indicator_scores unnamed_catalog unnamed_answers = Inr [''C1_0'' \<mapsto> 1]"
    by (simp add: calculate_indicator_scores_def unnamed_catalog_def unnamed_answers_def
        py_index_def py_str_0 option_id_to_grade_def py_upper_def upper_char_def
        GRADE_MAPPING_def)
  then show ?thesis
    by (simp add: calculate_all_scores_def unnamed_answers_def)
      (simp add: unnamed_catalog_def calculate_criterion_scores_def
        calculate_value_scores_def Let_def)
qed

text \<open>
  Claim C3, as the code has it. Let \<open>calculate_all_scores\<close> return the score data \<open>sd\<close>.
  The value map has an entry under \<open>t\<close> exactly when some questionnaire with display title
  \<open>t\<close> (its title, or its page key when it has none) has a collection present in the criterion
  map. The map is keyed by the title, so of several questionnaires with one display title the
  last one with a scored collection owns the entry: for a questionnaire with a scored
  collection that no such questionnaire of the same display title follows, the entry is the
  arithmetic mean of the criterion scores of exactly its collections present in the criterion
  map. When the display titles of the catalog are pairwise distinct, this is every
  questionnaire with a scored collection.
\<close>

theorem value_scores_mean:
  assumes "fst (calculate_all_scores self ans) = Inr sd"
  shows "(value_scores sd t \<noteq> None \<longleftrightarrow>
            (\<exists>(k, q)\<in>set (question_files self). value_name k q = t
               \<and> (\<exists>c\<in>set (question_collections q). criterion_scores sd (collection_id c) \<noteq> None)))
       \<and> (question_files self = pre @ (k, q) # post
            \<and> (\<exists>c\<in>set (question_collections q). criterion_scores sd (collection_id c) \<noteq> None)
            \<and> (\<forall>(k', q')\<in>set post. value_name k' q' = value_name k q
                  \<longrightarrow> (\<forall>c\<in>set (question_collections q').
                         criterion_scores sd (collection_id c) = None))
          \<longrightarrow> value_scores sd (value_name k q)
                = Some (mean_rat (map (\<lambda>c. the (criterion_scores sd (collection_id c)))
                     (filter (\<lambda>c. criterion_scores sd (collection_id c) \<noteq> None)
                        (question_collections q)))))
       \<and> (distinct (map (\<lambda>(k, q). value_name k q) (question_files self))
            \<and> (k, q) \<in> set (question_files self)
            \<and> (\<exists>c\<in>set (question_collections q). criterion_scores sd (collection_id c) \<noteq> None)
          \<longrightarrow> value_scores sd (value_name k q)
                = Some (mean_rat (map (\<lambda>c. the (criterion_scores sd (collection_id c)))
                     (filter (\<lambda>c. criterion_scores sd (collection_id c) \<noteq> None)
                        (question_collections q)))))"
proof -
  let ?crit = "criterion_scores sd"
  let ?qf = "question_files self"
  note vp = calculate_all_scores_value_pass [OF assms]
  have one: "value_scores sd t \<noteq> None \<longleftrightarrow>
            (\<exists>(k, q)\<in>set ?qf. value_name k q = t
               \<and> (\<exists>c\<in>set (question_collections q). ?crit (collection_id c) \<noteq> None))"
    unfolding vp value_pages_dom by (simp add: collection_values_empty)
  have last: "value_scores sd (value_name k q)
                = Some (mean_rat (map (\<lambda>c. the (?crit (collection_id c)))
                     (filter (\<lambda>c. ?crit (collection_id c) \<noteq> None) (question_collections q))))"
    if "?qf = pre @ (k, q) # post"
      and "\<exists>c\<in>set (question_collections q). ?crit (collection_id c) \<noteq> None"
      and "\<forall>(k', q')\<in>set post. value_name k' q' = value_name k q
                  \<longrightarrow> (\<forall>c\<in>set (question_collections q'). ?crit (collection_id c) = None)"
    for pre post k q
  proof -
    have a: "collection_values ?crit (question_collections q) \<noteq> []"
      using that(2) by (simp add: collection_values_empty)
    have b: "\<forall>(k', q')\<in>set post. value_name k' q' = value_name k q
           \<longrightarrow> collection_values ?crit (question_collections q') = []"
      using that(3) by (simp add: collection_values_empty)
    show ?thesis
      unfolding vp that(1) value_pages_last [OF a b]
      by (simp add: collection_values_filter)
  qed
  have dist: "value_scores sd (value_name k q)
                = Some (mean_rat (map (\<lambda>c. the (?crit (collection_id c)))
                     (filter (\<lambda>c. ?crit (collection_id c) \<noteq> None) (question_collections q))))"
    if d: "distinct (map (\<lambda>(k, q). value_name k q) ?qf)"
      and m: "(k, q) \<in> set ?qf"
      and s: "\<exists>c\<in>set (question_collections q). ?crit (collection_id c) \<noteq> None"
  proof -
    from m obtain pre' post' where sp: "?qf = pre' @ (k, q) # post'"
      by (auto simp: in_set_conv_decomp)
    have "value_name k q \<notin> (\<lambda>(k, q). value_name k q) ` set post'"
      using d unfolding sp by auto
    then have "\<forall>(k', q')\<in>set post'. value_name k' q' = value_name k q
                  \<longrightarrow> (\<forall>c\<in>set (question_collections q'). ?crit (collection_id c) = None)"
      by force
    then show ?thesis using last [OF sp s] by blast
  qed
  show ?thesis using one last dist by blast
qed

theorem value_scores_mean_witness:
  "(case fst (calculate_all_scores \<lparr>question_files = titles_catalog, score_cache = None\<rparr>
                titles_answers) of
      Inl e \<Rightarrow> False
    | Inr sd \<Rightarrow> value_scores sd ''T'' = Some (mean_rat [1, 4])
               \<and> value_scores sd ''P4'' = Some (mean_rat [2])
               \<and> value_scores sd ''P2'' = None)
   \<and> (case fst (calculate_all_scores \<lparr>question_files = two_page_catalog, score_cache = None\<rparr>
                two_page_answers) of
      Inl e \<Rightarrow> False
    | Inr sd \<Rightarrow> value_scores sd ''First'' = Some (mean_rat [1, 3]))"
proof -
  let ?p1 = "titles_catalog ! 0" and ?p2 = "titles_catalog ! 1"
  let ?p3 = "titles_catalog ! 2" and ?p4 = "titles_catalog ! 3"
  have cat: "titles_catalog = [?p1] @ (''P2'', snd ?p2) # [?p3, ?p4]"
    "titles_catalog = [?p1, ?p2, ?p3] @ (''P4'', snd ?p4) # []"
    by (simp_all add: titles_catalog_def)
  let ?crit = "[''C1'' \<mapsto> 6, ''C3'' \<mapsto> 1, ''C4'' \<mapsto> 4, ''C7'' \<mapsto> (2::rat)]"
  let ?vals = "calculate_value_scores titles_catalog ?crit"
  have T: "?vals ''T'' = Some (mean_rat [1, 4])"
    using value_scores_mean [OF titles_scores,
        where pre = "[?p1]" and k = "''P2''" and q = "snd ?p2" and post = "[?p3, ?p4]"]
    by (simp add: cat(1) [symmetric]) (simp add: titles_catalog_def value_name_def)
  have P4: "?vals ''P4'' = Some (mean_rat [2])"
    using value_scores_mean [OF titles_scores,
        where pre = "[?p1, ?p2, ?p3]" and k = "''P4''" and q = "snd ?p4" and post = "[]"]
    by (simp add: cat(2) [symmetric]) (simp add: titles_catalog_def value_name_def)
  have P2: "?vals ''P2'' = None"
    using value_scores_mean [OF titles_scores, where t = "''P2''"]
    by (simp add: titles_catalog_def value_name_def)
  let ?crit2 = "[''C1'' \<mapsto> 1, ''C2'' \<mapsto> 3, ''C3'' \<mapsto> (6::rat)]"
  have F: "calculate_value_scores two_page_catalog ?crit2 ''First'' = Some (mean_rat [1, 3])"
    using value_scores_mean [OF two_page_scores,
        where k = "''P1''" and q = "snd (two_page_catalog ! 0)"]
    by (simp add: two_page_catalog_def value_name_def)
  show ?thesis
    by (simp add: titles_scores two_page_scores T P4 P2 F)
qed

text \<open>
  The claim as stated fails when two questionnaires share a title. \<open>P1\<close> and \<open>P2\<close> are both
  titled \<open>T\<close>; the mean of the criterion scores of \<open>P1\<close> is 0, and the entry under its display
  title is 6, the mean of \<open>P2\<close>.
\<close>

theorem same_title_counterexample:
  "fst (calculate_all_scores \<lparr>question_files = same_title_catalog, score_cache = None\<rparr>
          same_title_answers)
     = Inr \<lparr>indicator_scores = [''I1'' \<mapsto> 0, ''I2'' \<mapsto> 6],
            criterion_scores = [''C1'' \<mapsto> 0, ''C2'' \<mapsto> 6],
            value_scores = [''T'' \<mapsto> 6]\<rparr>
   \<and> value_name ''P1'' (snd (hd same_title_catalog)) = ''T''
   \<and> mean_rat (map (\<lambda>c. the ([''C1'' \<mapsto> 0, ''C2'' \<mapsto> (6::rat)] (collection_id c)))
        (filter (\<lambda>c. [''C1'' \<mapsto> 0, ''C2'' \<mapsto> (6::rat)] (collection_id c) \<noteq> None)
           (question_collections (snd (hd same_title_catalog))))) = 0"
  using same_title_scores
  by (simp add: same_title_catalog_def value_name_def mean_rat_def)

text \<open>
  Claim C4, as the code has it. For every answers map and every page of the catalog whose key
  is not \<open>overall\<close>, \<open>get_progress_data\<close> reports under the page key: \<open>total\<close>, the sum of the
  question counts of the page's collections; \<open>answered\<close>, the number of answer keys that start
  with \<open>"<page>_<collection_id>"\<close>, summed over the page's collections; and \<open>progress\<close>,
  answered / total, or 0 when total is 0. The entry \<open>overall\<close> always holds the sums of total
  and answered over all questionnaires, with ratio 0 when the grand total is 0. The catalog is
  a dictionary: no page key occurs twice.
\<close>

theorem get_progress_data_entries:
  "(distinct (map fst (question_files self)) \<and> (page, q) \<in> set (question_files self)
      \<and> page \<noteq> ''overall''
    \<longrightarrow> fst (get_progress_data self ans) page =
          Some \<lparr>total = page_total q, answered = page_answered page q ans,
                progress = (if page_total q = 0 then 0
                            else of_int (page_answered page q ans) / of_int (page_total q))\<rparr>)
   \<and> fst (get_progress_data self ans) ''overall'' =
       Some \<lparr>total = sum_list (map (\<lambda>(k, q). page_total q) (question_files self)),
             answered = sum_list (map (\<lambda>(k, q). page_answered k q ans) (question_files self)),
             progress =
               (if sum_list (map (\<lambda>(k, q). page_total q) (question_files self)) = 0 then 0
                else of_int (sum_list (map (\<lambda>(k, q). page_answered k q ans) (question_files self)))
                     / of_int (sum_list (map (\<lambda>(k, q). page_total q) (question_files self))))\<rparr>
   \<and> (py_startswith key pre \<longleftrightarrow> (\<exists>rest. key = pre @ rest))"
proof -
  let ?qf = "question_files self"
  obtain pd t a where r: "progress_pages ans ?qf (Map.empty, 0, 0) = (pd, t, a)"
    by (cases "progress_pages ans ?qf (Map.empty, 0, 0)")
  have ta: "t = sum_list (map (\<lambda>(k, q). page_total q) ?qf)"
    "a = sum_list (map (\<lambda>(k, q). page_answered k q ans) ?qf)"
    using progress_pages_counts [of ans ?qf Map.empty 0 0] unfolding r by simp_all
  have t0: "0 \<le> t" unfolding ta
    by (rule sum_list_nonneg) (auto simp: page_total_nonneg)
  have g: "fst (get_progress_data self ans) = pd(''overall'' \<mapsto> make_entry t a)"
    by (simp add: get_progress_data_def r)
  have e: "make_entry x y = \<lparr>total = x, answered = y,
              progress = (if x = 0 then 0 else of_int y / of_int x)\<rparr>" if "0 \<le> x" for x y
    using that by (auto simp: make_entry_def)
  have "fst (get_progress_data self ans) page =
          Some \<lparr>total = page_total q, answered = page_answered page q ans,
                progress = (if page_total q = 0 then 0
                            else of_int (page_answered page q ans) / of_int (page_total q))\<rparr>"
    if "distinct (map fst ?qf)" "(page, q) \<in> set ?qf" "page \<noteq> ''overall''"
  proof -
    have "pd page = Some (make_entry (page_total q) (page_answered page q ans))"
      using progress_pages_entry [OF that(1,2), of ans Map.empty 0 0] unfolding r by simp
    then show ?thesis
      unfolding g using that(3) by (simp add: e [OF page_total_nonneg])
  qed
  moreover have "fst (get_progress_data self ans) ''overall'' =
       Some \<lparr>total = t, answered = a,
             progress = (if t = 0 then 0 else of_int a / of_int t)\<rparr>"
    unfolding g by (simp add: e [OF t0])
  ultimately show ?thesis
    unfolding ta [symmetric] using py_startswith_iff by blast
qed

theorem get_progress_data_entries_witness:
  "fst (get_progress_data \<lparr>question_files = progress_catalog, score_cache = None\<rparr>
          progress_answers) ''P''
     = Some \<lparr>total = 6, answered = 2, progress = 1 / 3\<rparr>"
proof -
  let ?q = "snd (hd progress_catalog)"
  have m: "distinct (map fst progress_catalog)" "(''P'', ?q) \<in> set progress_catalog"
    "''P'' \<noteq> ''overall''"
    by (simp_all add: progress_catalog_def)
  have t: "page_total ?q = 6"
    by (simp add: page_total_def progress_catalog_def)
  have a: "page_answered ''P'' ?q progress_answers = 2"
    by (simp add: page_answered_def progress_catalog_def progress_answers_def)
  show ?thesis
    using get_progress_data_entries
      [of "\<lparr>question_files = progress_catalog, score_cache = None\<rparr>" "''P''" ?q
          progress_answers] m
    by (simp add: t a)
qed

text \<open>
  The claim as stated fails for a page whose key is \<open>overall\<close>: the aggregate entry is
  written last under the same key. The page \<open>overall\<close> has one question, and the entry under
  \<open>overall\<close> reports the three questions of the whole catalog.
\<close>

theorem overall_page_counterexample:
  "fst (get_progress_data \<lparr>question_files = overall_catalog, score_cache = None\<rparr> []) ''overall''
     = Some \<lparr>total = 3, answered = 0, progress = 0\<rparr>
   \<and> page_total (snd (hd overall_catalog)) = 1
   \<and> (''overall'', snd (hd overall_catalog)) \<in> set overall_catalog"
  by (simp add: get_progress_data_def overall_catalog_def make_entry_def page_total_def)

text \<open>
  Claim C7. Whenever \<open>calculate_all_scores\<close> returns score data, every value of the indicator
  map is one of the integers 0 to 6, and every value of the criterion map and of the value map
  lies in the interval from 0 to 6.
\<close>

theorem scores_in_range:
  assumes "fst (calculate_all_scores self ans) = Inr sd"
  shows "(\<forall>k v. indicator_scores sd k = Some v \<longrightarrow> v \<in> {0, 1, 2, 3, 4, 5, 6})
       \<and> (\<forall>k v. criterion_scores sd k = Some v \<longrightarrow> 0 \<le> v \<and> v \<le> 6)
       \<and> (\<forall>k v. value_scores sd k = Some v \<longrightarrow> 0 \<le> v \<and> v \<le> 6)"
proof (cases "ans = []")
  case True
  then have "sd = \<lparr>indicator_scores = Map.empty, criterion_scores = Map.empty,
                    value_scores = Map.empty\<rparr>"
    using assms by (simp add: calculate_all_scores_def)
  then show ?thesis by simp
next
  case False
  then obtain ind where ind: "indicator_loop (question_files self) ans Map.empty = Inr ind"
    and sd: "sd = \<lparr>indicator_scores = ind,
                    criterion_scores = calculate_criterion_scores (question_files self) ind,
                    value_scores = calculate_value_scores (question_files self)
                      (calculate_criterion_scores (question_files self) ind)\<rparr>"
    using assms
    by (auto simp: calculate_all_scores_def calculate_indicator_scores_def Let_def
             split: sum.splits)
  have i: "0 \<le> v \<and> v \<le> 6" if "ind k = Some v" for k v
    using indicator_loop_bounds [OF ind _ that] by simp
  have c: "0 \<le> v \<and> v \<le> 6"
    if "calculate_criterion_scores (question_files self) ind k = Some v" for k v
    using that unfolding calculate_criterion_scores_def
    by (rule criterion_pages_bounds [rotated 2]) (use i in auto)
  have v: "0 \<le> v \<and> v \<le> 6"
    if "calculate_value_scores (question_files self)
          (calculate_criterion_scores (question_files self) ind) k = Some v" for k v
    using that unfolding calculate_value_scores_def
    by (rule value_pages_bounds [rotated 2]) (use c in auto)
  have "v \<in> {0, 1, 2, 3, 4, 5, 6}" if "ind k = Some v" for k v
    using i [OF that] by auto
  then show ?thesis using c v unfolding sd by auto
qed

theorem scores_in_range_witness:
  "fst (calculate_all_scores \<lparr>question_files = demo_catalog, score_cache = None\<rparr> demo_answers)
     = Inr \<lparr>indicator_scores = [''I1'' \<mapsto> 1, ''I2'' \<mapsto> 3],
            criterion_scores = [''C1'' \<mapsto> 2], value_scores = [''Quality'' \<mapsto> 2]\<rparr>
   \<and> (3::int) \<in> {0, 1, 2, 3, 4, 5, 6} \<and> (0::rat) \<le> 2 \<and> (2::rat) \<le> 6"
  using scores_in_range [OF demo_scores] demo_scores by simp

text \<open>
  Claim C8. Calling \<open>calculate_all_scores\<close> a second time, on the processor and the answers as
  the first call left them, gives the outcome of the first call; and the outcome does not
  depend on what the score cache holds: the method writes the cache and never reads it.
\<close>

theorem calculate_all_scores_idempotent:
  "fst (calculate_all_scores (fst (snd (calculate_all_scores self ans)))
          (snd (snd (calculate_all_scores self ans))))
     = fst (calculate_all_scores self ans)
   \<and> fst (calculate_all_scores (self\<lparr>score_cache := cache\<rparr>) ans)
     = fst (calculate_all_scores self ans)"
  by (simp add: calculate_all_scores_def Let_def split: sum.splits)

text \<open>
  Claim C9. After \<open>calculate_all_scores\<close> the answers map is what it was before the call and
  the processor holds the same catalog (only the score cache may differ); after
  \<open>get_progress_data\<close> the answers map and the whole processor are unchanged.
\<close>

theorem answers_and_catalog_unchanged:
  "snd (snd (calculate_all_scores self ans)) = ans
   \<and> question_files (fst (snd (calculate_all_scores self ans))) = question_files self
   \<and> snd (get_progress_data self ans) = (self, ans)"
  by (simp add: calculate_all_scores_def get_progress_data_def Let_def
        split: sum.splits prod.splits)

text \<open>
  Claim C10. The criterion map is keyed by the collection id alone. Let \<open>(k2, q2)\<close> be the
  last questionnaire of the catalog with a scored collection of id \<open>c\<close>, and \<open>col2\<close> its last
  such collection, with mean \<open>m\<close>. Then the single entry of the criterion map under \<open>c\<close> is
  \<open>m\<close>, whatever earlier questionnaires hold under the same id. The value pass consumes that
  entry: in every questionnaire of the catalog each collection with id \<open>c\<close> contributes
  \<open>m\<close> to the scores that are averaged, and the value score that
  \<open>_calculate_value_scores\<close> leaves for a questionnaire with a collection of id \<open>c\<close> is the
  mean of those scores (for the last questionnaire of its display title that has a scored
  collection; for every such questionnaire when display titles are pairwise distinct).
\<close>

theorem shared_criterion_entry:
  assumes "qf = pre @ (k2, q2) # post"
    and "question_collections q2 = cs1 @ col2 # cs2"
    and "collection_id col2 = c"
    and "question_scores ind (questions col2) \<noteq> []"
    and "\<forall>col\<in>set cs2. collection_id col = c \<longrightarrow> question_scores ind (questions col) = []"
    and "\<forall>(k, q)\<in>set post. \<forall>col\<in>set (question_collections q).
           collection_id col = c \<longrightarrow> question_scores ind (questions col) = []"
    and "crit = calculate_criterion_scores qf ind"
    and "m = mean_int (question_scores ind (questions col2))"
  shows "crit c = Some m
       \<and> (\<forall>(k, q)\<in>set qf.
            collection_values crit (question_collections q)
              = concat (map (\<lambda>col. if collection_id col = c then [m]
                                    else (case crit (collection_id col) of
                                            Some s \<Rightarrow> [s]
                                          | None \<Rightarrow> []))
                 (question_collections q)))
       \<and> (qf = pre' @ (k, q) # post'
            \<and> (\<exists>col\<in>set (question_collections q). collection_id col = c)
            \<and> (\<forall>(k', q')\<in>set post'. value_name k' q' = value_name k q
                  \<longrightarrow> (\<forall>col\<in>set (question_collections q'). crit (collection_id col) = None))
          \<longrightarrow> calculate_value_scores qf crit (value_name k q)
                = Some (mean_rat (concat (map (\<lambda>col. if collection_id col = c then [m]
                                    else (case crit (collection_id col) of
                                            Some s \<Rightarrow> [s]
                                          | None \<Rightarrow> []))
                 (question_collections q)))))
       \<and> (distinct (map (\<lambda>(k, q). value_name k q) qf) \<and> (k, q) \<in> set qf
            \<and> (\<exists>col\<in>set (question_collections q). collection_id col = c)
          \<longrightarrow> calculate_value_scores qf crit (value_name k q)
                = Some (mean_rat (concat (map (\<lambda>col. if collection_id col = c then [m]
                                    else (case crit (collection_id col) of
                                            Some s \<Rightarrow> [s]
                                          | None \<Rightarrow> []))
                 (question_collections q)))))"
proof -
  let ?flat = "\<lambda>xs. concat (map (\<lambda>(k, q). question_collections q) xs)"
  let ?f = "\<lambda>col. if collection_id col = c then [m]
                   else (case crit (collection_id col) of Some s \<Rightarrow> [s] | None \<Rightarrow> [])"
  have flat: "?flat qf = (?flat pre @ cs1) @ col2 # (cs2 @ ?flat post)"
    unfolding assms(1) by (simp add: assms(2))
  have later: "\<forall>col'\<in>set (cs2 @ ?flat post). collection_id col' = collection_id col2
           \<longrightarrow> question_scores ind (questions col') = []"
    using assms(3,5,6) by auto
  have entry: "crit c = Some m"
  proof -
    have "criterion_collections ind ((?flat pre @ cs1) @ col2 # (cs2 @ ?flat post)) Map.empty c
            = Some (mean_int (question_scores ind (questions col2)))"
      using criterion_collections_last [OF assms(4) later, of "?flat pre @ cs1" Map.empty]
      unfolding assms(3) .
    then show ?thesis
      unfolding assms(7,8) calculate_criterion_scores_def criterion_pages_flat flat .
  qed
  have shared: "collection_values crit cs = concat (map ?f cs)" for cs
    using entry by (rule collection_values_shared [of crit c m cs])
  have last: "calculate_value_scores qf crit (value_name k q)
                = Some (mean_rat (concat (map ?f (question_collections q))))"
    if sp: "qf = pre' @ (k, q) # post'"
      and has: "\<exists>col\<in>set (question_collections q). collection_id col = c"
      and post: "\<forall>(k', q')\<in>set post'. value_name k' q' = value_name k q
                  \<longrightarrow> (\<forall>col\<in>set (question_collections q'). crit (collection_id col) = None)"
    for pre' post' k q
  proof -
    have a: "collection_values crit (question_collections q) \<noteq> []"
      using has entry by (auto simp: collection_values_empty)
    have b: "\<forall>(k', q')\<in>set post'. value_name k' q' = value_name k q
           \<longrightarrow> collection_values crit (question_collections q') = []"
      using post by (simp add: collection_values_empty)
    show ?thesis
      unfolding calculate_value_scores_def sp value_pages_last [OF a b] shared ..
  qed
  have dist: "calculate_value_scores qf crit (value_name k q)
                = Some (mean_rat (concat (map ?f (question_collections q))))"
    if d: "distinct (map (\<lambda>(k, q). value_name k q) qf)" and mem: "(k, q) \<in> set qf"
      and has: "\<exists>col\<in>set (question_collections q). collection_id col = c"
  proof -
    from mem obtain pre' post' where sp: "qf = pre' @ (k, q) # post'"
      by (auto simp: in_set_conv_decomp)
    have "value_name k q \<notin> (\<lambda>(k, q). value_name k q) ` set post'"
      using d unfolding sp by auto
    then have "\<forall>(k', q')\<in>set post'. value_name k' q' = value_name k q
                  \<longrightarrow> (\<forall>col\<in>set (question_collections q'). crit (collection_id col) = None)"
      by force
    then show ?thesis using last [OF sp has] by blast
  qed
  show ?thesis using entry shared last dist by blast
qed

theorem shared_criterion_entry_witness:
  "calculate_indicator_scores same_id_catalog same_id_answers = Inr same_id_indicators
   \<and> calculate_criterion_scores same_id_catalog same_id_indicators ''C1'' = Some 6
   \<and> calculate_value_scores same_id_catalog
        (calculate_criterion_scores same_id_catalog same_id_indicators) ''First'' = Some 6
   \<and> calculate_value_scores same_id_catalog
        (calculate_criterion_scores same_id_catalog same_id_indicators) ''Second'' = Some 6
   \<and> mean_int (question_scores same_id_indicators
        (questions (hd (question_collections (snd (hd same_id_catalog)))))) = 0"
proof -
  let ?q1 = "snd (hd same_id_catalog)"
  let ?q2 = "snd (hd (tl same_id_catalog))"
  let ?col2 = "hd (question_collections ?q2)"
  let ?crit = "calculate_criterion_scores same_id_catalog same_id_indicators"
  have a: "same_id_catalog = [(''P1'', ?q1)] @ (''P2'', ?q2) # []"
    "question_collections ?q2 = [] @ ?col2 # []"
    "collection_id ?col2 = ''C1''"
    "question_scores same_id_indicators (questions ?col2) \<noteq> []"
    "\<forall>col\<in>set []. collection_id col = ''C1''
        \<longrightarrow> question_scores same_id_indicators (questions col) = []"
    "\<forall>(k, q)\<in>set []. \<forall>col\<in>set (question_collections q).
           collection_id col = ''C1'' \<longrightarrow> question_scores same_id_indicators (questions col) = []"
    "?crit = calculate_criterion_scores same_id_catalog same_id_indicators"
    "6 = mean_int (question_scores same_id_indicators (questions ?col2))"
    by (simp_all add: same_id_catalog_def same_id_indicators_def mean_int_def)
  note th = shared_criterion_entry [OF a]
  have e: "?crit ''C1'' = Some 6"
    using th by blast
  have q1: "question_collections ?q1
              = [\<lparr>collection_id = ''C1'', questions = [\<lparr>question_id = Some ''I1''\<rparr>]\<rparr>]"
    and q2: "question_collections ?q2
              = [\<lparr>collection_id = ''C1'', questions = [\<lparr>question_id = Some ''I2''\<rparr>]\<rparr>]"
    and n: "value_name ''P1'' ?q1 = ''First''" "value_name ''P2'' ?q2 = ''Second''"
    by (simp_all add: same_id_catalog_def value_name_def)
  have first: "calculate_value_scores same_id_catalog ?crit ''First'' = Some 6"
    using th [where pre' = "[]" and k = "''P1''" and q = ?q1 and post' = "[(''P2'', ?q2)]"]
      a(1)
    by (simp add: q1 n mean_rat_def)
  have d: "distinct (map (\<lambda>(k, q). value_name k q) same_id_catalog)"
    "(''P2'', ?q2) \<in> set same_id_catalog"
    by (simp_all add: same_id_catalog_def value_name_def)
  have second: "calculate_value_scores same_id_catalog ?crit ''Second'' = Some 6"
    using th [where k = "''P2''" and q = ?q2] d
    by (simp add: q2 n mean_rat_def)
  have "mean_int (question_scores same_id_indicators
        (questions (hd (question_collections ?q1)))) = 0"
    by (simp add: q1 same_id_indicators_def mean_int_def)
  then show ?thesis
    using same_id_indicator_pass e first second by simp
qed

end
